theory Spec2Isabelle
  imports Complex_Main "HOL-Library.Sublist"
begin

section \<open>JavaScript string primitives\<close>

text \<open>
  A JavaScript string is modelled as a \<^typ>\<open>string\<close>, one \<^typ>\<open>char\<close> per code unit.
  Case conversion is the ASCII one: \<open>A\<close>..\<open>Z\<close> and \<open>a\<close>..\<open>z\<close> are exchanged, every other
  code unit is left as it is. The word characters of a regular expression without the
  \<open>u\<close> flag are \<open>[A-Za-z0-9_]\<close>.
\<close>

definition toLowerChar :: "char \<Rightarrow> char" where
  "toLowerChar c =
     (let n = (of_char c :: nat) in if 65 \<le> n \<and> n \<le> 90 then char_of (n + 32) else c)"

definition toUpperChar :: "char \<Rightarrow> char" where
  "toUpperChar c =
     (let n = (of_char c :: nat) in if 97 \<le> n \<and> n \<le> 122 then char_of (n - 32) else c)"

definition toLowerCase :: "string \<Rightarrow> string" where
  "toLowerCase s = map toLowerChar s"

definition is_word_char :: "char \<Rightarrow> bool" where
  "is_word_char c =
     (let n = (of_char c :: nat) in
        (48 \<le> n \<and> n \<le> 57) \<or> (65 \<le> n \<and> n \<le> 90) \<or> (97 \<le> n \<and> n \<le> 122) \<or> n = 95)"

text \<open>\<^verbatim>\<open>s.replace(/_/g, ' ')\<close>\<close>

definition replace_underscores :: "string \<Rightarrow> string" where
  "replace_underscores s = map (\<lambda>c. if c = CHR ''_'' then CHR '' '' else c) s"

text \<open>
  \<^verbatim>\<open>s.replace(/\b\w/g, l => l.toUpperCase())\<close>: a word character is matched when it
  stands at a word boundary, that is, when it starts the string or follows a character
  that is not a word character. The flag says whether the previous character was a word
  character.
\<close>

fun capitalize_words :: "bool \<Rightarrow> string \<Rightarrow> string" where
  "capitalize_words prev [] = []"
| "capitalize_words prev (c # cs) =
     (if is_word_char c \<and> \<not> prev then toUpperChar c else c) # capitalize_words (is_word_char c) cs"

text \<open>
  \<^verbatim>\<open>s.indexOf(pat, pos)\<close>: the least index \<open>k \<ge> pos\<close> at which \<open>pat\<close> occurs in \<open>s\<close>;
  \<open>None\<close> stands for the result \<open>-1\<close>. The position is clamped to the length of \<open>s\<close>,
  and the empty pattern is found at the clamped position.
\<close>

fun indexOf_scan :: "string \<Rightarrow> string \<Rightarrow> nat \<Rightarrow> nat option" where
  "indexOf_scan pat [] i = (if pat = [] then Some i else None)"
| "indexOf_scan pat (c # cs) i =
     (if prefix pat (c # cs) then Some i else indexOf_scan pat cs (Suc i))"

definition indexOf :: "string \<Rightarrow> string \<Rightarrow> nat \<Rightarrow> nat option" where
  "indexOf s pat pos = (let k = min pos (length s) in indexOf_scan pat (drop k s) k)"

text \<open>\<^verbatim>\<open>s.includes(pat)\<close>\<close>

definition str_includes :: "string \<Rightarrow> string \<Rightarrow> bool" where
  "str_includes s pat = (indexOf s pat 0 \<noteq> None)"

text \<open>\<^verbatim>\<open>s.substring(a, b)\<close>: both indices are clamped to the length and swapped when \<open>a > b\<close>.\<close>

definition substring :: "string \<Rightarrow> nat \<Rightarrow> nat \<Rightarrow> string" where
  "substring s a b =
     (let a' = min a (length s); b' = min b (length s); lo = min a' b'; hi = max a' b'
      in take (hi - lo) (drop lo s))"

text \<open>\<^verbatim>\<open>s.substring(a)\<close>\<close>

definition substring_from :: "string \<Rightarrow> nat \<Rightarrow> string" where
  "substring_from s a = drop (min a (length s)) s"

text \<open>
  \<^verbatim>\<open>a || b\<close> on optional strings: \<open>undefined\<close> and the empty string are falsy, so the
  right operand is taken.
\<close>

definition truthy :: "string option \<Rightarrow> bool" where
  "truthy v = (case v of None \<Rightarrow> False | Some s \<Rightarrow> s \<noteq> [])"

definition or_else :: "string option \<Rightarrow> string option \<Rightarrow> string option" where
  "or_else a b = (if truthy a then a else b)"

definition or_default :: "string option \<Rightarrow> string \<Rightarrow> string" where
  "or_default a d = (case a of None \<Rightarrow> d | Some s \<Rightarrow> if s = [] then d else s)"

section \<open>Clause importance\<close>

datatype importance = High | Medium | Low

text \<open>
  The keyword test of \<^verbatim>\<open>ClauseExtraction.jsx\<close> (lines 51 to 58) and of
  \<^verbatim>\<open>AnalysisCharts.jsx\<close> (lines 65 to 71), on the lower-cased type.
\<close>

definition classify_lower :: "string \<Rightarrow> importance" where
  "classify_lower t =
     (if str_includes t ''liability'' \<or> str_includes t ''termination'' \<or> str_includes t ''indemnity''
         \<or> str_includes t ''payment'' \<or> str_includes t ''dispute'' then High
      else if str_includes t ''confidentiality'' \<or> str_includes t ''warranty''
         \<or> str_includes t ''governing'' \<or> str_includes t ''interest'' then Medium
      else Low)"

text \<open>
  An extraction as the backend sends it: every field may be absent. The attributes are
  kept as an association list.
\<close>

record extraction =
  extraction_class :: "string option"
  ext_type :: "string option"
  ext_class :: "string option"
  extraction_text :: "string option"
  ext_text :: "string option"
  ext_attributes :: "(string \<times> string) list option"

text \<open>\<^verbatim>\<open>ext.extraction_class || ext.type || ext.class || 'General Clause'\<close>\<close>

definition raw_type :: "extraction \<Rightarrow> string" where
  "raw_type ext =
     or_default (or_else (or_else (extraction_class ext) (ext_type ext)) (ext_class ext))
       ''General Clause''"

text \<open>The type shown by the clause list: underscores to spaces, then words capitalised.\<close>

definition display_type :: "string \<Rightarrow> string" where
  "display_type t = capitalize_words False (replace_underscores t)"

text \<open>The importance as the clause list computes it (\<^verbatim>\<open>ClauseExtraction.jsx\<close>, lines 47 to 58).\<close>

definition list_importance :: "string \<Rightarrow> importance" where
  "list_importance t = classify_lower (toLowerCase (display_type t))"

text \<open>The risk level as the chart computes it (\<^verbatim>\<open>AnalysisCharts.jsx\<close>, lines 62 to 71).\<close>

definition chart_importance :: "string \<Rightarrow> importance" where
  "chart_importance t = classify_lower (toLowerCase t)"

text \<open>
  The importance in the words of the specification: a function of the type, by
  case-insensitive substring match against the two fixed keyword sets.
\<close>

definition high_keywords :: "string list" where
  "high_keywords = [''liability'', ''termination'', ''indemnity'', ''payment'', ''dispute'']"

definition medium_keywords :: "string list" where
  "medium_keywords = [''confidentiality'', ''warranty'', ''governing'', ''interest'']"

definition contains_ignoring_case :: "string \<Rightarrow> string \<Rightarrow> bool" where
  "contains_ignoring_case t kw = sublist (toLowerCase kw) (toLowerCase t)"

definition importance_of_type :: "string \<Rightarrow> importance" where
  "importance_of_type t =
     (if list_ex (contains_ignoring_case t) high_keywords then High
      else if list_ex (contains_ignoring_case t) medium_keywords then Medium
      else Low)"

section \<open>The clause list (\<^verbatim>\<open>ClauseExtraction.jsx\<close>)\<close>

text \<open>
  The clause payload in its three shapes. \<open>payload_results\<close> is the object
  \<^verbatim>\<open>results\<close> as the list of its entries in the order of \<^verbatim>\<open>Object.values\<close>;
  \<open>json_output_text\<close> is \<^verbatim>\<open>json_output?.text\<close>.
\<close>

record model_result =
  extractions :: "extraction list option"
  json_output_text :: "string option"

record legacy_payload =
  legacy_clauses :: "extraction list option"

record clause_payload =
  payload_text :: "string option"
  payload_results :: "(string \<times> model_result) list option"
  payload_clauses :: "extraction list option"
  payload_langextract :: "legacy_payload option"

record clause =
  clause_type :: string
  clause_text :: string
  clause_importance :: importance
  clause_confidence :: string
  clause_attributes :: "(string \<times> string) list"

record processed_clauses =
  pc_clauses :: "clause list"
  pc_totalClauses :: nat
  pc_text :: string

text \<open>Lines 31 to 35: every model's extractions are appended, in order.\<close>

definition results_extractions :: "(string \<times> model_result) list \<Rightarrow> extraction list" where
  "results_extractions rs =
     foldl (\<lambda>acc r. case extractions (snd r) of Some es \<Rightarrow> acc @ es | None \<Rightarrow> acc) [] rs"

text \<open>Lines 20 to 40: the three shapes, tried in this order.\<close>

definition raw_clauses :: "clause_payload \<Rightarrow> extraction list" where
  "raw_clauses d =
     (case payload_results d of
        Some rs \<Rightarrow> results_extractions rs
      | None \<Rightarrow>
          (case payload_clauses d of
             Some cs \<Rightarrow> cs
           | None \<Rightarrow>
               (case payload_langextract d of
                  Some l \<Rightarrow> (case legacy_clauses l of Some cs \<Rightarrow> cs | None \<Rightarrow> [])
                | None \<Rightarrow> [])))"

text \<open>Lines 21 to 29: the document text, from the root or from the first model result.\<close>

definition full_text :: "clause_payload \<Rightarrow> string" where
  "full_text d =
     (let fullText = or_default (payload_text d) [] in
      case payload_results d of
        Some ((m, firstResult) # rest) \<Rightarrow>
          if fullText = [] then or_default (json_output_text firstResult) [] else fullText
      | _ \<Rightarrow> fullText)"

text \<open>Lines 46 to 67: one extraction mapped to the standard format.\<close>

definition normalize_extraction :: "extraction \<Rightarrow> clause" where
  "normalize_extraction ext =
     (let type = display_type (raw_type ext);
          typeLower = toLowerCase type
      in \<lparr> clause_type = type,
           clause_text = or_default (or_else (extraction_text ext) (ext_text ext)) ''No text available'',
           clause_importance = classify_lower typeLower,
           clause_confidence =
             (case ext_attributes ext of
                None \<Rightarrow> ''medium''
              | Some as \<Rightarrow> or_default (map_of as ''confidence'') ''medium''),
           clause_attributes = (case ext_attributes ext of None \<Rightarrow> [] | Some as \<Rightarrow> as) \<rparr>)"

text \<open>Lines 70 to 75: the filter of invalid clauses.\<close>

definition valid_clause :: "clause \<Rightarrow> bool" where
  "valid_clause c =
     (clause_text c \<noteq> [] \<and> toLowerCase (clause_text c) \<noteq> ''null''
      \<and> clause_text c \<noteq> ''No text available'' \<and> 5 < length (clause_text c))"

definition empty_clauses :: processed_clauses where
  "empty_clauses = \<lparr> pc_clauses = [], pc_totalClauses = 0, pc_text = [] \<rparr>"

text \<open>
  \<^verbatim>\<open>processedData\<close> of the clause list; the argument is \<open>None\<close> when \<^verbatim>\<open>data\<close> is
  \<^verbatim>\<open>undefined\<close> or \<^verbatim>\<open>null\<close>.
\<close>

definition processedData :: "clause_payload option \<Rightarrow> processed_clauses" where
  "processedData data =
     (case data of
        None \<Rightarrow> empty_clauses
      | Some d \<Rightarrow>
          if payload_clauses d = None \<and> payload_results d = None \<and> payload_langextract d = None
          then empty_clauses
          else
            (let clauses = filter valid_clause (map normalize_extraction (raw_clauses d))
             in \<lparr> pc_clauses = clauses, pc_totalClauses = length clauses, pc_text = full_text d \<rparr>))"

section \<open>Sentiment (\<^verbatim>\<open>SentimentAnalysis.jsx\<close>)\<close>

record sentence_result =
  sr_text :: "string option"
  sr_label :: "string option"
  sr_score :: "real option"

record statistics =
  overall_sentiment :: "string option"
  average_scores :: "(string \<times> real) list option"

text \<open>
  \<^verbatim>\<open>sentence_results\<close> is an array in the backend's format. A value that is truthy and
  is not an array has no \<^verbatim>\<open>map\<close>, and line 21 raises a \<^verbatim>\<open>TypeError\<close> on it.
\<close>

datatype sentence_results_value = SentenceArray "sentence_result list" | NotAnArray

datatype js_error = TypeError

record sentiment_payload =
  sp_statistics :: "statistics option"
  sentence_results :: "sentence_results_value option"

record sentence_analysis =
  sa_text :: "string option"
  sa_sentiment :: string
  sa_score :: real

record processed_sentiment =
  overallSentiment :: string
  ps_score :: real
  ps_confidence :: real
  sentenceAnalysis :: "sentence_analysis list"

text \<open>\<^verbatim>\<open>x || 0\<close> on an optional number.\<close>

definition num_or_zero :: "real option \<Rightarrow> real" where
  "num_or_zero x = (case x of None \<Rightarrow> 0 | Some v \<Rightarrow> v)"

text \<open>
  Line 28: \<^verbatim>\<open>data.statistics?.average_scores?.[data.statistics?.overall_sentiment] || 0\<close>.
  An absent \<^verbatim>\<open>overall_sentiment\<close> indexes with the key \<^verbatim>\<open>"undefined"\<close>.
\<close>

definition overall_score :: "statistics option \<Rightarrow> real" where
  "overall_score st =
     (case st of
        None \<Rightarrow> 0
      | Some s \<Rightarrow>
          (case average_scores s of
             None \<Rightarrow> 0
           | Some avs \<Rightarrow>
               num_or_zero
                 (map_of avs (case overall_sentiment s of None \<Rightarrow> ''undefined'' | Some k \<Rightarrow> k))))"

definition map_sentence :: "sentence_result \<Rightarrow> sentence_analysis" where
  "map_sentence s =
     \<lparr> sa_text = sr_text s,
       sa_sentiment = toLowerCase (or_default (sr_label s) ''neutral''),
       sa_score = num_or_zero (sr_score s) \<rparr>"

definition neutral_sentiment :: processed_sentiment where
  "neutral_sentiment =
     \<lparr> overallSentiment = ''neutral'', ps_score = 0, ps_confidence = 0, sentenceAnalysis = [] \<rparr>"

text \<open>\<^verbatim>\<open>processedData\<close> of the sentiment tab (lines 8 to 36).\<close>

definition processedSentiment :: "sentiment_payload option \<Rightarrow> js_error + processed_sentiment" where
  "processedSentiment data =
     (case data of
        None \<Rightarrow> Inr neutral_sentiment
      | Some d \<Rightarrow>
          if sp_statistics d = None \<and> sentence_results d = None then Inr neutral_sentiment
          else
            (case sentence_results d of
               Some NotAnArray \<Rightarrow> Inl TypeError
             | sentence_field \<Rightarrow>
                 (let sentences =
                        (case sentence_field of Some (SentenceArray ss) \<Rightarrow> ss | _ \<Rightarrow> []);
                      mappedSentences = map map_sentence sentences;
                      overallScore = overall_score (sp_statistics d)
                  in Inr \<lparr> overallSentiment =
                         toLowerCase
                           (or_default
                              (case sp_statistics d of None \<Rightarrow> None | Some s \<Rightarrow> overall_sentiment s)
                              ''neutral''),
                       ps_score = overallScore,
                       ps_confidence = overallScore,
                       sentenceAnalysis = mappedSentences \<rparr>)))"

section \<open>Named entities (\<^verbatim>\<open>NERAnalysis.jsx\<close>)\<close>

record ner_entity =
  entity_text :: string
  entity_label :: "string option"
  entity_type :: "string option"

record ner_payload =
  entities :: "ner_entity list option"

record entity_group =
  group_type :: string
  group_color :: string
  group_count :: nat
  group_examples :: "string list"

definition colorMap :: "(string \<times> string) list" where
  "colorMap =
     [(''ORG'', ''bg-purple-100 dark:bg-purple-900/30 text-purple-600 dark:text-purple-400''),
      (''COMPANY'', ''bg-purple-100 dark:bg-purple-900/30 text-purple-600 dark:text-purple-400''),
      (''REVENUE'', ''bg-blue-100 dark:bg-blue-900/30 text-blue-600 dark:text-blue-400''),
      (''STOCK_PRICE'', ''bg-cyan-100 dark:bg-cyan-900/30 text-cyan-600 dark:text-cyan-400''),
      (''MARKET_CAP'', ''bg-green-100 dark:bg-green-900/30 text-green-600 dark:text-green-400''),
      (''FINANCIAL_EVENT'', ''bg-pink-100 dark:bg-pink-900/30 text-pink-600 dark:text-pink-400''),
      (''FINANCIAL_RATIO'', ''bg-orange-100 dark:bg-orange-900/30 text-orange-600 dark:text-orange-400''),
      (''PERSON'', ''bg-indigo-100 dark:bg-indigo-900/30 text-indigo-600 dark:text-indigo-400''),
      (''LOCATION'', ''bg-teal-100 dark:bg-teal-900/30 text-teal-600 dark:text-teal-400''),
      (''GPE'', ''bg-teal-100 dark:bg-teal-900/30 text-teal-600 dark:text-teal-400''),
      (''DATE'', ''bg-amber-100 dark:bg-amber-900/30 text-amber-600 dark:text-amber-400''),
      (''MONEY'', ''bg-emerald-100 dark:bg-emerald-900/30 text-emerald-600 dark:text-emerald-400'')]"

text \<open>
  Lines 50 to 65 of the entity tab. \<^verbatim>\<open>entityGroups\<close> is an object keyed by type; it is
  kept as the list of its groups in the order the keys were inserted, which is the order of
  \<^verbatim>\<open>Object.values\<close> for keys that are not array indices. The types are taken not to be names
  of members of \<^verbatim>\<open>Object.prototype\<close>.
\<close>

fun add_to_group :: "string \<Rightarrow> string \<Rightarrow> entity_group list \<Rightarrow> entity_group list" where
  "add_to_group type txt [] =
     [\<lparr> group_type = type,
        group_color =
          or_default (map_of colorMap type)
            ''bg-gray-100 dark:bg-gray-900/30 text-gray-600 dark:text-gray-400'',
        group_count = 1,
        group_examples = [txt] \<rparr>]"
| "add_to_group type txt (g # gs) =
     (if group_type g = type
      then g \<lparr> group_count := group_count g + 1,
               group_examples :=
                 (if length (group_examples g) < 10 then group_examples g @ [txt]
                  else group_examples g) \<rparr> # gs
      else g # add_to_group type txt gs)"

text \<open>\<^verbatim>\<open>entity.label || entity.type || 'OTHER'\<close>\<close>

definition group_key :: "ner_entity \<Rightarrow> string" where
  "group_key e = or_default (or_else (entity_label e) (entity_type e)) ''OTHER''"

definition entityGroups :: "ner_payload option \<Rightarrow> entity_group list" where
  "entityGroups data =
     (case data of
        None \<Rightarrow> []
      | Some d \<Rightarrow>
          (case entities d of
             None \<Rightarrow> []
           | Some es \<Rightarrow> foldl (\<lambda>gs e. add_to_group (group_key e) (entity_text e) gs) [] es))"

section \<open>The chart aggregator (\<^verbatim>\<open>AnalysisCharts.jsx\<close>)\<close>

text \<open>
  The analysis bundle the results page hands to the charts: \<^verbatim>\<open>data.ner\<close>,
  \<^verbatim>\<open>data.finbert\<close> and \<^verbatim>\<open>data.langextract\<close>. The clause tab receives
  \<^verbatim>\<open>data.langextract\<close>, so the chart's \<^verbatim>\<open>data.langextract.clauses\<close> is the field
  \<open>payload_clauses\<close> of that payload.
\<close>

record analysis_results =
  ner :: "ner_payload option"
  finbert :: "sentiment_payload option"
  langextract :: "clause_payload option"

text \<open>
  Lines 17 to 20: \<^verbatim>\<open>counts[e.label] = (counts[e.label] || 0) + 1\<close>. The object
  \<^verbatim>\<open>counts\<close> is the list of its entries in insertion order, which is the order of
  \<^verbatim>\<open>Object.keys\<close> for keys that are not array indices. A property key is a string: an
  absent label is the key \<^verbatim>\<open>"undefined"\<close>. The labels are taken to be strings that are
  neither array indices nor names of members of \<^verbatim>\<open>Object.prototype\<close>; a label that is
  \<^verbatim>\<open>null\<close> is not modelled.
\<close>

definition label_key :: "ner_entity \<Rightarrow> string" where
  "label_key e = (case entity_label e of None \<Rightarrow> ''undefined'' | Some l \<Rightarrow> l)"

fun increment :: "string \<Rightarrow> (string \<times> nat) list \<Rightarrow> (string \<times> nat) list" where
  "increment k [] = [(k, 1)]"
| "increment k ((k', n) # rest) =
     (if k' = k then (k', n + 1) # rest else (k', n) # increment k rest)"

text \<open>
  Lines 15 to 30. \<^verbatim>\<open>sort((a, b) => b.value - a.value)\<close> is a stable sort, descending by
  value; \<^verbatim>\<open>slice(0, 10)\<close> keeps the first ten.
\<close>

definition entityData :: "analysis_results \<Rightarrow> (string \<times> nat) list" where
  "entityData data =
     (case ner data of
        None \<Rightarrow> []
      | Some n \<Rightarrow>
          (case entities n of
             None \<Rightarrow> []
           | Some es \<Rightarrow>
               (let counts = foldl (\<lambda>acc e. increment (label_key e) acc) [] es
                in take 10 (sort_key (\<lambda>item. - int (snd item)) counts))))"

record risk_levels =
  level_High :: nat
  level_Medium :: nat
  level_Low :: nat

record risk_item =
  item_name :: string
  item_value :: nat
  item_color :: string

text \<open>Lines 60 to 72: one clause counted into its level.\<close>

definition count_risk :: "risk_levels \<Rightarrow> extraction \<Rightarrow> risk_levels" where
  "count_risk riskLevels c =
     (case chart_importance (raw_type c) of
        High \<Rightarrow> riskLevels \<lparr> level_High := level_High riskLevels + 1 \<rparr>
      | Medium \<Rightarrow> riskLevels \<lparr> level_Medium := level_Medium riskLevels + 1 \<rparr>
      | Low \<Rightarrow> riskLevels \<lparr> level_Low := level_Low riskLevels + 1 \<rparr>)"

text \<open>Lines 55 to 82.\<close>

definition riskData :: "analysis_results \<Rightarrow> risk_item list" where
  "riskData data =
     (case langextract data of
        None \<Rightarrow> []
      | Some l \<Rightarrow>
          (case payload_clauses l of
             None \<Rightarrow> []
           | Some cs \<Rightarrow>
               (let riskLevels =
                      foldl count_risk \<lparr> level_High = 0, level_Medium = 0, level_Low = 0 \<rparr> cs;
                    total = level_High riskLevels + level_Medium riskLevels + level_Low riskLevels
                in if total = 0 then []
                   else
                     filter (\<lambda>item. 0 < item_value item)
                       [\<lparr> item_name = ''High Risk'', item_value = level_High riskLevels,
                           item_color = ''#ef4444'' \<rparr>,
                        \<lparr> item_name = ''Medium Risk'', item_value = level_Medium riskLevels,
                           item_color = ''#f59e0b'' \<rparr>,
                        \<lparr> item_name = ''Low Risk'', item_value = level_Low riskLevels,
                           item_color = ''#10b981'' \<rparr>])))"

text \<open>
  The risk distribution in the words of the specification: the clauses are grouped by
  importance into the buckets High, Medium and Low, and an empty bucket is left out.
\<close>

definition risk_distribution :: "importance list \<Rightarrow> (string \<times> nat) list" where
  "risk_distribution imps =
     filter (\<lambda>bucket. 0 < snd bucket)
       [(''High Risk'', length (filter (\<lambda>i. i = High) imps)),
        (''Medium Risk'', length (filter (\<lambda>i. i = Medium) imps)),
        (''Low Risk'', length (filter (\<lambda>i. i = Low) imps))]"

section \<open>The interactive clause viewer (\<^verbatim>\<open>InteractiveClauseViewer.jsx\<close>)\<close>

record viewer_state =
  activeClauseIndex :: int
  isPlaying :: bool
  searchTerm :: string
  filterType :: string

definition initial_viewer :: viewer_state where
  "initial_viewer =
     \<lparr> activeClauseIndex = - 1, isPlaying = False, searchTerm = [], filterType = ''all'' \<rparr>"

text \<open>The number \<^verbatim>\<open>indexOf\<close> returns: \<open>-1\<close> when there is no occurrence.\<close>

definition index_number :: "nat option \<Rightarrow> int" where
  "index_number r = (case r of None \<Rightarrow> - 1 | Some k \<Rightarrow> int k)"

text \<open>
  Lines 19 to 36. \<^verbatim>\<open>Array.prototype.sort\<close> is stable, and so is \<^const>\<open>sort_key\<close>; the
  comparator orders by the first occurrence of the clause text.
\<close>

definition sortedClauses :: "string \<Rightarrow> clause list \<Rightarrow> string \<Rightarrow> string \<Rightarrow> clause list" where
  "sortedClauses text clauses search ftype =
     (let processed =
            sort_key (\<lambda>c. index_number (indexOf text (clause_text c) 0))
              (filter (\<lambda>c. clause_text c \<noteq> [] \<and> str_includes text (clause_text c)) clauses);
          processed' =
            (if search \<noteq> [] then
               filter (\<lambda>c. str_includes (toLowerCase (clause_text c)) (toLowerCase search)
                          \<or> str_includes (toLowerCase (clause_type c)) (toLowerCase search))
                 processed
             else processed)
      in if ftype \<noteq> ''all'' then filter (\<lambda>c. clause_type c = ftype) processed' else processed')"

text \<open>
  Lines 44 to 63. The interval exists while \<^verbatim>\<open>isPlaying\<close> holds and the sorted list is not
  empty; \<open>tick\<close> is one firing of it, and does nothing when there is no interval. \<open>n\<close> is
  \<^verbatim>\<open>sortedClauses.length\<close>.
\<close>

definition tick :: "nat \<Rightarrow> viewer_state \<Rightarrow> viewer_state" where
  "tick n st =
     (if isPlaying st \<and> 0 < n then
        (if int n - 1 \<le> activeClauseIndex st then st \<lparr> isPlaying := False \<rparr>
         else st \<lparr> activeClauseIndex := activeClauseIndex st + 1 \<rparr>)
      else st)"

text \<open>Line 202: the play button, \<^verbatim>\<open>setIsPlaying(!isPlaying)\<close>.\<close>

definition toggle_play :: "viewer_state \<Rightarrow> viewer_state" where
  "toggle_play st = st \<lparr> isPlaying := \<not> isPlaying st \<rparr>"

text \<open>One firing of the interval of the viewer with the given text and clauses.\<close>

definition viewer_tick :: "string \<Rightarrow> clause list \<Rightarrow> viewer_state \<Rightarrow> viewer_state" where
  "viewer_tick text clauses st =
     tick (length (sortedClauses text clauses (searchTerm st) (filterType st))) st"

text \<open>
  The rendered elements. A highlight carries its \<^verbatim>\<open>data-index\<close>, the two offsets given to
  \<^verbatim>\<open>substring\<close> and the text shown; a plain span carries its text.
\<close>

datatype element = Plain string | Highlight nat nat nat string

record render_state =
  lastIndex :: nat
  elements :: "element list"

text \<open>Lines 124 to 162: the body of the \<^verbatim>\<open>forEach\<close>, for the clause at index \<open>idx\<close>.\<close>

definition render_clause :: "string \<Rightarrow> clause \<Rightarrow> nat \<Rightarrow> render_state \<Rightarrow> render_state" where
  "render_clause text c idx st =
     (let startIndex = indexOf text (clause_text c) (lastIndex st);
          absoluteIndex = indexOf text (clause_text c) 0
      in case absoluteIndex of
           None \<Rightarrow> st
         | Some firstOccurrence \<Rightarrow>
             (let displayStart = (case startIndex of Some k \<Rightarrow> k | None \<Rightarrow> firstOccurrence)
              in if displayStart < lastIndex st then st
                 else
                   (let before =
                          (if lastIndex st < displayStart
                           then elements st @ [Plain (substring text (lastIndex st) displayStart)]
                           else elements st);
                        stop = displayStart + length (clause_text c)
                    in \<lparr> lastIndex = stop,
                         elements =
                           before @ [Highlight idx displayStart stop (substring text displayStart stop)] \<rparr>)))"

fun render_loop :: "string \<Rightarrow> clause list \<Rightarrow> nat \<Rightarrow> render_state \<Rightarrow> render_state" where
  "render_loop text [] idx st = st"
| "render_loop text (c # cs) idx st = render_loop text cs (Suc idx) (render_clause text c idx st)"

datatype rendered = NoTextContent | Elements "element list"

text \<open>Lines 115 to 169, on the sorted clauses.\<close>

definition render_sorted :: "string \<Rightarrow> clause list \<Rightarrow> rendered" where
  "render_sorted text cs =
     (if text = [] then NoTextContent
      else
        (let st = render_loop text cs 0 \<lparr> lastIndex = 0, elements = [] \<rparr>
         in Elements
              (if lastIndex st < length text
               then elements st @ [Plain (substring_from text (lastIndex st))]
               else elements st)))"

definition renderHighlightedText ::
  "string \<Rightarrow> clause list \<Rightarrow> viewer_state \<Rightarrow> rendered" where
  "renderHighlightedText text clauses st =
     render_sorted text (sortedClauses text clauses (searchTerm st) (filterType st))"

text \<open>The spans of the highlights, in the order of the elements, and the text of an element.\<close>

fun spans :: "element list \<Rightarrow> (nat \<times> nat) list" where
  "spans [] = []"
| "spans (Plain s # es) = spans es"
| "spans (Highlight idx start stop s # es) = (start, stop) # spans es"

fun element_text :: "element \<Rightarrow> string" where
  "element_text (Plain s) = s"
| "element_text (Highlight idx start stop s) = s"

fun rendered_elements :: "rendered \<Rightarrow> element list" where
  "rendered_elements NoTextContent = []"
| "rendered_elements (Elements es) = es"

text \<open>
  Two invariants of the loop. The elements built so far spell the text up to the cursor;
  the spans built so far are in order, none is reversed and none ends after the cursor.
\<close>

definition text_inv :: "string \<Rightarrow> render_state \<Rightarrow> bool" where
  "text_inv text st =
     (lastIndex st \<le> length text
      \<and> concat (map element_text (elements st)) = take (lastIndex st) text)"

definition spans_inv :: "render_state \<Rightarrow> bool" where
  "spans_inv st =
     (sorted_wrt (\<lambda>a b. snd a \<le> fst b) (spans (elements st))
      \<and> list_all (\<lambda>p. fst p \<le> snd p \<and> snd p \<le> lastIndex st) (spans (elements st)))"

section \<open>The chat session (\<^verbatim>\<open>Chatbot.jsx\<close>)\<close>

datatype sender = User | Bot

record message =
  msg_id :: nat
  msg_text :: string
  msg_sender :: sender
  msg_timestamp :: nat
  msg_sources :: "string list option"

record uploaded_doc =
  doc_name :: string
  doc_size :: nat
  doc_url :: string

text \<open>
  The state of the page, and what is outstanding outside it: the timeouts that have been
  set and not fired (each holds the message id its callback computed from the
  \<^verbatim>\<open>messages\<close> of its render), the questions handed to \<^verbatim>\<open>queryRAG\<close>, the ids held by
  the calls that have not settled, and likewise the files handed to \<^verbatim>\<open>uploadRAGDocument\<close>.
\<close>

record chat_state =
  messages :: "message list"
  inputValue :: string
  isLoading :: bool
  uploadedDocs :: "uploaded_doc list"
  isUploading :: bool
  timeouts :: "nat list"
  query_calls :: "string list"
  queries_pending :: "nat list"
  upload_calls :: "string list"
  uploads_pending :: "(string \<times> nat) list"

definition bot_message :: "nat \<Rightarrow> string \<Rightarrow> nat \<Rightarrow> message" where
  "bot_message i txt now =
     \<lparr> msg_id = i, msg_text = txt, msg_sender = Bot, msg_timestamp = now, msg_sources = None \<rparr>"











text \<open>
  Lines 101 to 121: the oldest pending call of \<^verbatim>\<open>queryRAG\<close> settles, with the response
  (\<^verbatim>\<open>success\<close>, \<^verbatim>\<open>answer\<close>, \<^verbatim>\<open>metadata?.sources_used\<close>) or with the message of an error.
\<close>

record rag_response =
  success :: bool
  answer :: string
  sources_used :: "string list option"

definition query_settles :: "string + rag_response \<Rightarrow> nat \<Rightarrow> chat_state \<Rightarrow> chat_state" where
  "query_settles result now st =
     (case queries_pending st of
        [] \<Rightarrow> st
      | i # rest \<Rightarrow>
          (let reply =
                 (case result of
                    Inr response \<Rightarrow>
                      \<lparr> msg_id = i,
                        msg_text =
                          (if success response then answer response
                           else ''I encountered an error processing your question.''),
                        msg_sender = Bot, msg_timestamp = now,
                        msg_sources = sources_used response \<rparr>
                  | Inl err \<Rightarrow>
                      bot_message i
                        (''Error: '' @ err @ ''. Make sure you've uploaded a document first!'') now)
           in st \<lparr> messages := messages st @ [reply], isLoading := False,
                    queries_pending := rest \<rparr>))"

text \<open>
  Lines 23 to 68: \<^verbatim>\<open>handleFileUpload\<close> up to its \<^verbatim>\<open>await\<close>, and the settling of the
  oldest pending upload with \<^verbatim>\<open>(filename, size_bytes)\<close> or with the message of an error.
  The emoji that opens the two result messages is left out.
\<close>

definition handleFileUpload :: "string option \<Rightarrow> nat \<Rightarrow> chat_state \<Rightarrow> chat_state" where
  "handleFileUpload file now st =
     (case file of
        None \<Rightarrow> st
      | Some name \<Rightarrow>
          st \<lparr> isUploading := True,
               messages :=
                 messages st
                 @ [bot_message (length (messages st) + 1)
                      (''Uploading '' @ [CHR 0x22] @ name @ [CHR 0x22] @ ''...'') now],
               upload_calls := upload_calls st @ [name],
               uploads_pending := uploads_pending st @ [(name, length (messages st) + 2)] \<rparr>)"

definition upload_settles :: "string + (string \<times> nat) \<Rightarrow> nat \<Rightarrow> chat_state \<Rightarrow> chat_state" where
  "upload_settles result now st =
     (case uploads_pending st of
        [] \<Rightarrow> st
      | (name, i) # rest \<Rightarrow>
          (case result of
             Inr (filename, size_bytes) \<Rightarrow>
               st \<lparr> uploadedDocs :=
                      uploadedDocs st
                      @ [\<lparr> doc_name = name, doc_size = size_bytes,
                           doc_url = ''http://localhost:8001/uploads/'' @ filename \<rparr>],
                    messages :=
                      messages st
                      @ [bot_message i
                           (''Successfully uploaded and processed '' @ [CHR 0x22] @ name
                            @ [CHR 0x22] @ ''! Ask me anything about this document.'') now],
                    isUploading := False, uploads_pending := rest \<rparr>
           | Inl err \<Rightarrow>
               st \<lparr> messages :=
                      messages st @ [bot_message i (''Failed to upload document: '' @ err) now],
                    isUploading := False, uploads_pending := rest \<rparr>))"


section \<open>Example inputs\<close>

text \<open>The end-to-end scenario of the specification, as a flat payload.\<close>

definition scenario_text :: string where
  "scenario_text = ''A. The Liability Clause limits damages. B. The Confidentiality Clause restricts disclosure.''"

definition scenario_extractions :: "extraction list" where
  "scenario_extractions =
     [\<lparr> extraction_class = None, ext_type = Some ''liability_clause'', ext_class = None,
        extraction_text = None, ext_text = Some ''The Liability Clause limits damages'',
        ext_attributes = None \<rparr>,
      \<lparr> extraction_class = None, ext_type = Some ''confidentiality_clause'', ext_class = None,
        extraction_text = None, ext_text = Some ''The Confidentiality Clause restricts disclosure'',
        ext_attributes = None \<rparr>]"

definition scenario_payload :: clause_payload where
  "scenario_payload =
     \<lparr> payload_text = Some scenario_text, payload_results = None,
       payload_clauses = Some scenario_extractions, payload_langextract = None \<rparr>"

text \<open>The same scenario as the backend's multi-model shape.\<close>

definition scenario_results_payload :: clause_payload where
  "scenario_results_payload =
     \<lparr> payload_text = Some scenario_text,
       payload_results =
         Some [(''gemini'',
                \<lparr> extractions = Some scenario_extractions, json_output_text = None \<rparr>)],
       payload_clauses = None, payload_langextract = None \<rparr>"

text \<open>A flat payload whose only extraction has the text \<^verbatim>\<open>"null"\<close>.\<close>

definition null_text_payload :: clause_payload where
  "null_text_payload =
     \<lparr> payload_text = None, payload_results = None,
       payload_clauses =
         Some [\<lparr> extraction_class = Some ''liability_clause'', ext_type = None,
                 ext_class = None, extraction_text = Some ''null'', ext_text = None,
                 ext_attributes = None \<rparr>],
       payload_langextract = None \<rparr>"

text \<open>A payload of the multi-model shape, with one extraction whose text is \<^verbatim>\<open>"null"\<close>.\<close>

definition termination_extraction :: extraction where
  "termination_extraction =
     \<lparr> extraction_class = Some ''termination_clause'', ext_type = None, ext_class = None,
       extraction_text = Some ''Either party may terminate'', ext_text = None,
       ext_attributes = None \<rparr>"

definition null_extraction :: extraction where
  "null_extraction =
     \<lparr> extraction_class = Some ''notice'', ext_type = None, ext_class = None,
       extraction_text = Some ''null'', ext_text = None, ext_attributes = None \<rparr>"

definition two_model_extractions :: "extraction list" where
  "two_model_extractions = [termination_extraction, null_extraction]"

definition two_model_payload :: clause_payload where
  "two_model_payload =
     \<lparr> payload_text = Some ''Either party may terminate. null'',
       payload_results =
         Some [(''gemini'',
                \<lparr> extractions = Some [termination_extraction], json_output_text = None \<rparr>),
               (''gpt'',
                \<lparr> extractions = Some [null_extraction], json_output_text = None \<rparr>)],
       payload_clauses = None, payload_langextract = None \<rparr>"

text \<open>A viewer with three clauses, all found in the text.\<close>

definition three_text :: string where
  "three_text = ''Fees are due monthly. Notices go by mail. Either party may terminate.''"

definition three_clauses :: "clause list" where
  "three_clauses =
     [\<lparr> clause_type = ''Termination Clause'', clause_text = ''Either party may terminate'',
        clause_importance = High, clause_confidence = ''medium'', clause_attributes = [] \<rparr>,
      \<lparr> clause_type = ''Payment Terms'', clause_text = ''Fees are due monthly'',
        clause_importance = High, clause_confidence = ''medium'', clause_attributes = [] \<rparr>,
      \<lparr> clause_type = ''Notice Provision'', clause_text = ''Notices go by mail'',
        clause_importance = Low, clause_confidence = ''medium'', clause_attributes = [] \<rparr>]"

text \<open>A clause whose only occurrences in \<^verbatim>\<open>abcabc\<close> start before position six.\<close>

definition bca_clause :: clause where
  "bca_clause =
     \<lparr> clause_type = ''General Clause'', clause_text = ''bca'', clause_importance = Low,
       clause_confidence = ''medium'', clause_attributes = [] \<rparr>"


text \<open>An entity payload in which the entities carry a type and no label.\<close>

definition typed_entities :: analysis_results where
  "typed_entities =
     \<lparr> ner =
         Some \<lparr> entities =
                  Some [\<lparr> entity_text = ''Acme Corp'', entity_label = None,
                          entity_type = Some ''ORG'' \<rparr>,
                        \<lparr> entity_text = ''2024'', entity_label = None,
                          entity_type = Some ''DATE'' \<rparr>] \<rparr>,
       finbert = None, langextract = None \<rparr>"

section \<open>Properties of the string primitives\<close>

lemma toLowerChar_char_of:
  assumes "65 \<le> (m::nat)" "m \<le> 90"
  shows "toLowerChar (char_of m) = char_of (m + 32)"
proof -
  have "m mod 256 = m" by (rule mod_less) (use assms in linarith)
  then show ?thesis using assms by (simp add: toLowerChar_def)
qed

lemma lower_upper [simp]: "toLowerChar (toUpperChar c) = toLowerChar c"
proof -
  let ?n = "of_char c :: nat"
  show ?thesis
  proof (cases "97 \<le> ?n \<and> ?n \<le> 122")
    case True
    have up: "toUpperChar c = char_of (?n - 32)"
      using True by (simp add: toUpperChar_def)
    have "toLowerChar (char_of (?n - 32)) = char_of (?n - 32 + 32)"
      by (rule toLowerChar_char_of) (use True in linarith)+
    moreover have "?n - 32 + 32 = ?n" using True by simp
    ultimately have "toLowerChar (toUpperChar c) = c" using up by simp
    moreover have "toLowerChar c = c" using True by (simp add: toLowerChar_def)
    ultimately show ?thesis by simp
  next
    case False
    then show ?thesis by (auto simp add: toLowerChar_def toUpperChar_def Let_def)
  qed
qed

lemma lower_capitalize: "map toLowerChar (capitalize_words b s) = map toLowerChar s"
  by (induction s arbitrary: b) auto

lemma lower_us [simp]: "toLowerChar (CHR ''_'') = CHR ''_''" "toLowerChar (CHR '' '') = CHR '' ''"
  by (simp_all add: toLowerChar_def)

lemma lower_eq_us: "toLowerChar c = CHR ''_'' \<Longrightarrow> c = CHR ''_''"
proof (rule ccontr)
  assume eq: "toLowerChar c = CHR ''_''" and ne: "c \<noteq> CHR ''_''"
  let ?n = "of_char c :: nat"
  from eq ne have rng: "65 \<le> ?n \<and> ?n \<le> 90" and "char_of (?n + 32) = CHR ''_''"
    by (auto simp add: toLowerChar_def Let_def split: if_splits)
  then have "(of_char (char_of (?n + 32) :: char) :: nat) = of_char (CHR ''_'')" by simp
  moreover have "?n + 32 < 256" using rng by simp
  ultimately show False using rng by simp
qed

lemma lower_replace:
  "map toLowerChar (replace_underscores s) = replace_underscores (map toLowerChar s)"
  by (induction s) (auto simp add: replace_underscores_def dest: lower_eq_us)

lemma indexOf_scan_Some:
  "indexOf_scan pat s i = Some k \<Longrightarrow> i \<le> k \<and> k - i \<le> length s \<and> prefix pat (drop (k - i) s)"
proof (induction s arbitrary: i)
  case Nil
  then show ?case by (auto split: if_splits)
next
  case (Cons c cs)
  show ?case
  proof (cases "prefix pat (c # cs)")
    case True
    with Cons.prems show ?thesis by simp
  next
    case False
    with Cons.prems have "indexOf_scan pat cs (Suc i) = Some k" by simp
    from Cons.IH[OF this] have "Suc i \<le> k" "k - Suc i \<le> length cs" "prefix pat (drop (k - Suc i) cs)"
      by auto
    moreover have "k - i = Suc (k - Suc i)" using \<open>Suc i \<le> k\<close> by simp
    ultimately show ?thesis by simp
  qed
qed

lemma indexOf_scan_least:
  "indexOf_scan pat s i = Some k \<Longrightarrow> j < k - i \<Longrightarrow> \<not> prefix pat (drop j s)"
proof (induction s arbitrary: i j)
  case Nil
  then show ?case by (auto split: if_splits)
next
  case (Cons c cs)
  show ?case
  proof (cases "prefix pat (c # cs)")
    case True
    with Cons.prems show ?thesis by simp
  next
    case False
    with Cons.prems have s: "indexOf_scan pat cs (Suc i) = Some k" by simp
    show ?thesis
    proof (cases j)
      case 0
      with False show ?thesis by simp
    next
      case (Suc j')
      with Cons.prems have "j' < k - Suc i" by simp
      from Cons.IH[OF s this] Suc show ?thesis by simp
    qed
  qed
qed

lemma indexOf_scan_None:
  "indexOf_scan pat s i = None \<Longrightarrow> j \<le> length s \<Longrightarrow> \<not> prefix pat (drop j s)"
proof (induction s arbitrary: i j)
  case Nil
  then show ?case by (auto split: if_splits)
next
  case (Cons c cs)
  from Cons.prems have np: "\<not> prefix pat (c # cs)" and s: "indexOf_scan pat cs (Suc i) = None"
    by (auto split: if_splits)
  show ?case
  proof (cases j)
    case 0
    with np show ?thesis by simp
  next
    case (Suc j')
    with Cons.prems have "j' \<le> length cs" by simp
    from Cons.IH[OF s this] Suc show ?thesis by simp
  qed
qed

lemma str_includes_sublist: "str_includes s pat \<longleftrightarrow> sublist pat s"
proof
  assume "str_includes s pat"
  then obtain k where "indexOf_scan pat s 0 = Some k"
    by (auto simp add: str_includes_def indexOf_def)
  from indexOf_scan_Some[OF this] have "prefix pat (drop k s)" by simp
  then obtain zs where "drop k s = pat @ zs" by (auto simp add: prefix_def)
  then have "s = take k s @ pat @ zs" by (metis append_take_drop_id)
  then show "sublist pat s" unfolding sublist_def by blast
next
  assume "sublist pat s"
  then obtain ps ss where s: "s = ps @ pat @ ss" unfolding sublist_def by blast
  show "str_includes s pat"
  proof (rule ccontr)
    assume "\<not> str_includes s pat"
    then have "indexOf_scan pat s 0 = None" by (simp add: str_includes_def indexOf_def)
    from indexOf_scan_None[OF this, of "length ps"] s show False by simp
  qed
qed

lemma sublist_map_fixed:
  assumes fixes_kw: "\<And>c. c \<in> set kw \<Longrightarrow> f c = c" and into_kw: "\<And>c. f c \<in> set kw \<Longrightarrow> f c = c"
  shows "sublist kw (map f s) \<longleftrightarrow> sublist kw s"
proof
  assume "sublist kw (map f s)"
  then obtain ps ss where "map f s = ps @ kw @ ss" unfolding sublist_def by blast
  then have "\<exists>us vs. s = us @ vs \<and> ps = map f us \<and> kw @ ss = map f vs"
    by (simp only: map_eq_append_conv)
  then obtain ps' vs where s1: "s = ps' @ vs" and vs: "kw @ ss = map f vs"
    by blast
  from vs have "\<exists>us ws. vs = us @ ws \<and> kw = map f us \<and> ss = map f ws"
    by (simp only: append_eq_map_conv)
  then obtain kw' ss' where s2: "vs = kw' @ ss'" and kw: "map f kw' = kw"
    by blast
  from s1 s2 have s: "s = ps' @ kw' @ ss'" by simp
  have "map f kw' = kw'"
  proof (rule map_idI)
    fix c assume "c \<in> set kw'"
    then have "f c \<in> set kw" using kw by auto
    then show "f c = c" by (rule into_kw)
  qed
  with kw s show "sublist kw s" unfolding sublist_def by auto
next
  assume "sublist kw s"
  then obtain ps ss where "s = ps @ kw @ ss" unfolding sublist_def by blast
  then have "map f s = map f ps @ map f kw @ map f ss" by simp
  moreover have "map f kw = kw" by (rule map_idI) (rule fixes_kw)
  ultimately show "sublist kw (map f s)" unfolding sublist_def by metis
qed

lemma includes_replace_underscores:
  assumes "CHR ''_'' \<notin> set kw" "CHR '' '' \<notin> set kw"
  shows "str_includes (replace_underscores s) kw \<longleftrightarrow> str_includes s kw"
  unfolding str_includes_sublist replace_underscores_def
  by (rule sublist_map_fixed) (use assms in auto)

lemma includes_display_type:
  assumes "CHR ''_'' \<notin> set kw" "CHR '' '' \<notin> set kw"
  shows "str_includes (toLowerCase (display_type t)) kw \<longleftrightarrow> str_includes (toLowerCase t) kw"
  by (simp add: toLowerCase_def display_type_def lower_capitalize lower_replace
      includes_replace_underscores[OF assms])

lemma list_chart_importance: "list_importance t = chart_importance t"
  unfolding list_importance_def chart_importance_def classify_lower_def
  by (simp add: includes_display_type)


lemma chart_importance_spec: "chart_importance t = importance_of_type t"
  by (simp add: chart_importance_def classify_lower_def importance_of_type_def
      high_keywords_def medium_keywords_def contains_ignoring_case_def str_includes_sublist
      toLowerCase_def toLowerChar_def)

lemma normalize_importance:
  "clause_importance (normalize_extraction ext) = list_importance (raw_type ext)"
  by (simp add: normalize_extraction_def list_importance_def Let_def)

lemma display_type_importance: "importance_of_type (display_type t) = importance_of_type t"
proof -
  have "importance_of_type (display_type t) = classify_lower (toLowerCase (display_type t))"
    by (simp add: chart_importance_spec[symmetric] chart_importance_def)
  also have "\<dots> = importance_of_type t"
    using list_chart_importance[of t] by (simp add: list_importance_def chart_importance_spec)
  finally show ?thesis .
qed

lemma indexOf_Some:
  assumes "indexOf s pat pos = Some k"
  shows "min pos (length s) \<le> k \<and> k \<le> length s \<and> prefix pat (drop k s)"
proof -
  let ?k0 = "min pos (length s)"
  from assms have scan: "indexOf_scan pat (drop ?k0 s) ?k0 = Some k"
    by (simp add: indexOf_def Let_def)
  from indexOf_scan_Some [OF scan]
  have le: "?k0 \<le> k" and len: "k - ?k0 \<le> length (drop ?k0 s)"
    and pre: "prefix pat (drop (k - ?k0) (drop ?k0 s))"
    by blast+
  from le pre have "prefix pat (drop k s)" by simp
  moreover from le len have "k \<le> length s" by simp
  ultimately show ?thesis using le by blast
qed

lemma indexOf_None:
  assumes "indexOf s pat pos = None" and "pos \<le> j" and "j \<le> length s"
  shows "\<not> prefix pat (drop j s)"
proof -
  let ?k0 = "min pos (length s)"
  from assms(1) have scan: "indexOf_scan pat (drop ?k0 s) ?k0 = None"
    by (simp add: indexOf_def Let_def)
  have "j - ?k0 \<le> length (drop ?k0 s)" using assms(2,3) by simp
  from indexOf_scan_None [OF scan this] have "\<not> prefix pat (drop (j - ?k0) (drop ?k0 s))" .
  moreover have "?k0 + (j - ?k0) = j" using assms(2,3) by simp
  ultimately show ?thesis by simp
qed

lemma indexOf_least:
  assumes "indexOf s pat pos = Some k" and "pos \<le> j" and "j < k"
  shows "\<not> prefix pat (drop j s)"
proof -
  let ?k0 = "min pos (length s)"
  from assms(1) have scan: "indexOf_scan pat (drop ?k0 s) ?k0 = Some k"
    by (simp add: indexOf_def Let_def)
  from indexOf_Some [OF assms(1)] have "k \<le> length s" by simp
  with assms have k0: "?k0 \<le> j" by simp
  then have "j - ?k0 < k - ?k0" using assms(3) by simp
  from indexOf_scan_least [OF scan this] have "\<not> prefix pat (drop (j - ?k0) (drop ?k0 s))" .
  moreover have "?k0 + (j - ?k0) = j" using k0 by simp
  ultimately show ?thesis by simp
qed

lemma prefix_drop_occurrence:
  assumes "prefix pat (drop k s)" and "k \<le> length s"
  shows "k + length pat \<le> length s" and "take (length pat) (drop k s) = pat"
proof -
  from assms(1) obtain zs where eq: "drop k s = pat @ zs" by (auto simp add: prefix_def)
  then show "take (length pat) (drop k s) = pat" by simp
  from eq have "length (drop k s) = length pat + length zs" by simp
  with assms(2) show "k + length pat \<le> length s" by simp
qed

text \<open>What the callback does when it emits, and when it skips\<close>

lemma substring_in_range:
  "a \<le> b \<Longrightarrow> b \<le> length s \<Longrightarrow> substring s a b = take (b - a) (drop a s)"
  by (simp add: substring_def Let_def min_absorb1 max_absorb2)

lemma concat_gap:
  assumes "l \<le> d" and "d + n \<le> length s"
  shows "take l s @ take (d - l) (drop l s) @ take n (drop d s) = take (d + n) s"
proof -
  have "take l s @ take (d - l) (drop l s) = take (l + (d - l)) s"
    by (simp only: take_add)
  also have "l + (d - l) = d" using assms(1) by simp
  finally have "take l s @ take (d - l) (drop l s) = take d s" .
  then have "take l s @ take (d - l) (drop l s) @ take n (drop d s) = take d s @ take n (drop d s)"
    by simp
  also have "\<dots> = take (d + n) s" by (simp only: take_add)
  finally show ?thesis .
qed

section \<open>The importance is shared by the chart and the clause list\<close>

text \<open>
  Claim C1. For every type string the chart aggregator and the clause list compute the
  same importance, and that importance is the function of the type the specification
  describes: a case-insensitive substring match, high for liability, termination,
  indemnity, payment or dispute, else medium for confidentiality, warranty, governing or
  interest, else low. The importance stored in a clause is that function of the type
  stored with it. Termination Clause is high, Confidentiality Agreement is medium and
  Notice Provision is low.
\<close>

theorem C1_importance_shared:
  "list_importance t = chart_importance t
   \<and> chart_importance t = importance_of_type t
   \<and> clause_importance (normalize_extraction ext) = chart_importance (raw_type ext)
   \<and> clause_importance (normalize_extraction ext)
       = importance_of_type (clause_type (normalize_extraction ext))
   \<and> list_importance ''Termination Clause'' = High
   \<and> list_importance ''Confidentiality Agreement'' = Medium
   \<and> list_importance ''Notice Provision'' = Low"
proof -
  have a: "list_importance t = chart_importance t" by (rule list_chart_importance)
  have b: "chart_importance t = importance_of_type t" by (rule chart_importance_spec)
  have c: "clause_importance (normalize_extraction ext) = chart_importance (raw_type ext)"
    by (simp add: normalize_importance list_chart_importance)
  have d: "clause_importance (normalize_extraction ext)
       = importance_of_type (clause_type (normalize_extraction ext))"
  proof -
    have "clause_type (normalize_extraction ext) = display_type (raw_type ext)"
      by (simp add: normalize_extraction_def Let_def)
    then show ?thesis
      by (simp add: c chart_importance_spec display_type_importance)
  qed
  have e: "list_importance ''Termination Clause'' = High" by code_simp
  have f: "list_importance ''Confidentiality Agreement'' = Medium" by code_simp
  have g: "list_importance ''Notice Provision'' = Low" by code_simp
  from a b c d e f g show ?thesis by blast
qed

section \<open>The three shapes of the clause payload\<close>

lemma results_extractions_acc:
  "foldl (\<lambda>acc r. case extractions (snd r) of Some es \<Rightarrow> acc @ es | None \<Rightarrow> acc) acc0 rs
   = acc0 @ concat (map (\<lambda>r. case extractions (snd r) of Some es \<Rightarrow> es | None \<Rightarrow> []) rs)"
  by (induction rs arbitrary: acc0) (auto split: option.splits)

lemma results_extractions_concat:
  "results_extractions rs
   = concat (map (\<lambda>r. case extractions (snd r) of Some es \<Rightarrow> es | None \<Rightarrow> []) rs)"
  by (simp add: results_extractions_def results_extractions_acc)

lemma processedData_clauses:
  "payload_clauses d \<noteq> None \<or> payload_results d \<noteq> None \<or> payload_langextract d \<noteq> None \<Longrightarrow>
   pc_clauses (processedData (Some d)) = filter valid_clause (map normalize_extraction (raw_clauses d))"
  by (auto simp add: processedData_def Let_def)

text \<open>
  Claim C2. A list of extractions presented as the multi-model shape (the extractions of
  the models of \<^verbatim>\<open>results\<close>, in order), as the flat shape (\<^verbatim>\<open>clauses\<close>) or as the legacy
  nested shape (\<^verbatim>\<open>langextract.clauses\<close>) is normalized to the same clause list: the same
  clauses, with the same types, texts, importances and attributes, in the same order.
\<close>

theorem C2_shape_invariance:
  assumes shape_a: "payload_results a = Some rs" "results_extractions rs = es"
    and shape_b: "payload_results b = None" "payload_clauses b = Some es"
    and shape_c: "payload_results c = None" "payload_clauses c = None"
      "payload_langextract c = Some l" "legacy_clauses l = Some es"
  shows "pc_clauses (processedData (Some a)) = filter valid_clause (map normalize_extraction es)
       \<and> pc_clauses (processedData (Some b)) = pc_clauses (processedData (Some a))
       \<and> pc_clauses (processedData (Some c)) = pc_clauses (processedData (Some a))"
proof -
  have a: "pc_clauses (processedData (Some a)) = filter valid_clause (map normalize_extraction es)"
    using shape_a by (simp add: processedData_clauses raw_clauses_def)
  have b: "pc_clauses (processedData (Some b)) = filter valid_clause (map normalize_extraction es)"
    using shape_b by (simp add: processedData_clauses raw_clauses_def)
  have c: "pc_clauses (processedData (Some c)) = filter valid_clause (map normalize_extraction es)"
    using shape_c by (simp add: processedData_clauses raw_clauses_def)
  from a b c show ?thesis by simp
qed

theorem C2_shape_invariance_witness:
  "results_extractions (the (payload_results two_model_payload)) = two_model_extractions
   \<and> map clause_type (pc_clauses (processedData (Some two_model_payload))) = [''Termination Clause'']
   \<and> pc_clauses (processedData
        (Some \<lparr> payload_text = None, payload_results = None, payload_clauses = Some two_model_extractions,
                payload_langextract = None \<rparr>))
       = pc_clauses (processedData (Some two_model_payload))
   \<and> pc_clauses (processedData
        (Some \<lparr> payload_text = None, payload_results = None, payload_clauses = None,
                payload_langextract = Some \<lparr> legacy_clauses = Some two_model_extractions \<rparr> \<rparr>))
       = pc_clauses (processedData (Some two_model_payload))"
proof -
  have a: "payload_results two_model_payload = Some (the (payload_results two_model_payload))"
    by (simp add: two_model_payload_def)
  have b: "results_extractions (the (payload_results two_model_payload)) = two_model_extractions"
    by (simp add: two_model_payload_def two_model_extractions_def results_extractions_def)
  have c: "map clause_type (pc_clauses (processedData (Some two_model_payload))) = [''Termination Clause'']"
    by code_simp
  show ?thesis
    using b c
      C2_shape_invariance [OF a b,
        of "\<lparr> payload_text = None, payload_results = None, payload_clauses = Some two_model_extractions,
              payload_langextract = None \<rparr>"
           "\<lparr> payload_text = None, payload_results = None, payload_clauses = None,
              payload_langextract = Some \<lparr> legacy_clauses = Some two_model_extractions \<rparr> \<rparr>"
           "\<lparr> legacy_clauses = Some two_model_extractions \<rparr>"]
    by simp
qed

section \<open>Invalid clauses never reach a view\<close>

lemma sortedClauses_subset: "set (sortedClauses text cs search ftype) \<subseteq> set cs"
  by (auto simp add: sortedClauses_def Let_def)

lemma valid_clause_text:
  "valid_clause c \<Longrightarrow>
   clause_text c \<noteq> [] \<and> toLowerCase (clause_text c) \<noteq> ''null''
   \<and> clause_text c \<noteq> ''No text available'' \<and> \<not> length (clause_text c) < 6"
  by (auto simp add: valid_clause_def)

text \<open>
  Claim C4. For every clause payload, no clause whose text is empty, is \<^verbatim>\<open>null\<close> in any
  letter case, is \<^verbatim>\<open>No text available\<close>, or has fewer than six characters is in the
  normalized clause list, nor in the sorted and filtered list the viewer shows.
\<close>

theorem C4_invalid_clauses_discarded:
  "(\<forall>c \<in> set (pc_clauses (processedData data)).
      clause_text c \<noteq> [] \<and> toLowerCase (clause_text c) \<noteq> ''null''
      \<and> clause_text c \<noteq> ''No text available'' \<and> \<not> length (clause_text c) < 6)
   \<and> (\<forall>c \<in> set (sortedClauses (pc_text (processedData data))
                     (pc_clauses (processedData data)) search ftype).
      clause_text c \<noteq> [] \<and> toLowerCase (clause_text c) \<noteq> ''null''
      \<and> clause_text c \<noteq> ''No text available'' \<and> \<not> length (clause_text c) < 6)"
proof -
  have kept: "\<forall>c \<in> set (pc_clauses (processedData data)). valid_clause c"
    by (auto simp add: processedData_def empty_clauses_def Let_def split: option.splits)
  moreover have "\<forall>c \<in> set (sortedClauses (pc_text (processedData data))
                     (pc_clauses (processedData data)) search ftype). valid_clause c"
    using kept sortedClauses_subset by blast
  ultimately show ?thesis
    using valid_clause_text by blast
qed

theorem C4_invalid_clauses_discarded_witness:
  "map clause_text (pc_clauses (processedData (Some two_model_payload))) = [''Either party may terminate'']
   \<and> list_all (\<lambda>c. clause_text c \<noteq> [] \<and> toLowerCase (clause_text c) \<noteq> ''null''
        \<and> clause_text c \<noteq> ''No text available'' \<and> \<not> length (clause_text c) < 6)
       (pc_clauses (processedData (Some two_model_payload)))"
proof -
  have "map clause_text (pc_clauses (processedData (Some two_model_payload))) = [''Either party may terminate'']"
    by code_simp
  then show ?thesis
    using C4_invalid_clauses_discarded [of "Some two_model_payload"] by (simp add: list_all_iff)
qed

section \<open>Missing sentiment is neutral\<close>

text \<open>
  Claim C5. A sentiment payload with neither \<^verbatim>\<open>statistics\<close> nor \<^verbatim>\<open>sentence_results\<close>
  is normalized to the neutral record (label neutral, score zero, no sentences), and the
  result is a record, not an error.
\<close>

theorem C5_sentiment_default:
  assumes "sp_statistics d = None" and "sentence_results d = None"
  shows "processedSentiment (Some d)
         = Inr \<lparr> overallSentiment = ''neutral'', ps_score = 0, ps_confidence = 0,
                 sentenceAnalysis = [] \<rparr>"
  using assms by (simp add: processedSentiment_def neutral_sentiment_def)

theorem C5_sentiment_default_witness:
  "sp_statistics \<lparr> sp_statistics = None, sentence_results = None \<rparr> = None
   \<and> processedSentiment (Some \<lparr> sp_statistics = None, sentence_results = None \<rparr>)
       = Inr \<lparr> overallSentiment = ''neutral'', ps_score = 0, ps_confidence = 0,
               sentenceAnalysis = [] \<rparr>"
  using C5_sentiment_default [of "\<lparr> sp_statistics = None, sentence_results = None \<rparr>"]
  by simp

section \<open>Auto-play stops at the last clause\<close>

text \<open>
  Claim C6. With three clauses in the sorted and filtered list and the active index at
  zero, pressing play and letting the interval fire three times moves the index to one,
  then to two, and then stops playing with the index still at two; a later firing changes
  nothing. The index never wraps around.
\<close>

theorem C6_autoplay_stops_at_end:
  assumes "length (sortedClauses text clauses (searchTerm st) (filterType st)) = 3"
    and "activeClauseIndex st = 0" and "\<not> isPlaying st"
  shows "viewer_tick text clauses (toggle_play st)
           = st \<lparr> activeClauseIndex := 1, isPlaying := True \<rparr>
       \<and> viewer_tick text clauses (viewer_tick text clauses (toggle_play st))
           = st \<lparr> activeClauseIndex := 2, isPlaying := True \<rparr>
       \<and> viewer_tick text clauses
            (viewer_tick text clauses (viewer_tick text clauses (toggle_play st)))
           = st \<lparr> activeClauseIndex := 2, isPlaying := False \<rparr>
       \<and> viewer_tick text clauses
            (viewer_tick text clauses
               (viewer_tick text clauses (viewer_tick text clauses (toggle_play st))))
           = st \<lparr> activeClauseIndex := 2, isPlaying := False \<rparr>"
  using assms by (simp add: viewer_tick_def tick_def toggle_play_def)

theorem C6_autoplay_stops_at_end_witness:
  "length (sortedClauses three_text three_clauses [] ''all'') = 3
   \<and> viewer_tick three_text three_clauses
        (viewer_tick three_text three_clauses
           (viewer_tick three_text three_clauses
              (toggle_play (initial_viewer \<lparr> activeClauseIndex := 0 \<rparr>))))
       = \<lparr> activeClauseIndex = 2, isPlaying = False, searchTerm = [], filterType = ''all'' \<rparr>"
proof -
  let ?st = "initial_viewer \<lparr> activeClauseIndex := 0 \<rparr>"
  have n: "length (sortedClauses three_text three_clauses [] ''all'') = 3"
    by code_simp
  then have h: "length (sortedClauses three_text three_clauses (searchTerm ?st) (filterType ?st)) = 3"
    by (simp add: initial_viewer_def)
  have i: "activeClauseIndex ?st = 0" and p: "\<not> isPlaying ?st"
    by (simp_all add: initial_viewer_def)
  from C6_autoplay_stops_at_end [OF h i p]
  have r: "viewer_tick three_text three_clauses
        (viewer_tick three_text three_clauses
           (viewer_tick three_text three_clauses (toggle_play ?st)))
       = ?st \<lparr> activeClauseIndex := 2, isPlaying := False \<rparr>"
    by blast
  have e: "?st \<lparr> activeClauseIndex := 2, isPlaying := False \<rparr>
       = \<lparr> activeClauseIndex = 2, isPlaying = False, searchTerm = [], filterType = ''all'' \<rparr>"
    by (simp add: initial_viewer_def)
  from n r e show ?thesis by simp
qed

section \<open>A question without a document\<close>





section \<open>The risk distribution\<close>

lemma count_risk_levels:
  "level_High (count_risk r c) = level_High r + (if chart_importance (raw_type c) = High then 1 else 0)"
  "level_Medium (count_risk r c) = level_Medium r + (if chart_importance (raw_type c) = Medium then 1 else 0)"
  "level_Low (count_risk r c) = level_Low r + (if chart_importance (raw_type c) = Low then 1 else 0)"
  by (cases "chart_importance (raw_type c)"; simp add: count_risk_def)+

lemma count_risk_foldl:
  "level_High (foldl count_risk r cs)
     = level_High r + length (filter (\<lambda>c. chart_importance (raw_type c) = High) cs)
   \<and> level_Medium (foldl count_risk r cs)
     = level_Medium r + length (filter (\<lambda>c. chart_importance (raw_type c) = Medium) cs)
   \<and> level_Low (foldl count_risk r cs)
     = level_Low r + length (filter (\<lambda>c. chart_importance (raw_type c) = Low) cs)"
proof (induction cs arbitrary: r)
  case Nil
  show ?case by simp
next
  case (Cons c cs)
  show ?case
    by (simp add: Cons.IH [of "count_risk r c"] count_risk_levels)
qed

lemma riskData_buckets:
  "map (\<lambda>i. (item_name i, item_value i))
     (riskData \<lparr> ner = n, finbert = f, langextract = Some (p \<lparr> payload_clauses := Some cs \<rparr>) \<rparr>)
   = risk_distribution (map (\<lambda>c. chart_importance (raw_type c)) cs)"
  by (simp add: riskData_def Let_def count_risk_foldl risk_distribution_def filter_map o_def)

lemma length_capitalize_words [simp]: "length (capitalize_words b s) = length s"
  by (induction s arbitrary: b) auto

lemma display_type_Nil: "display_type t = [] \<longleftrightarrow> t = []"
proof -
  have "length (display_type t) = length t"
    by (simp add: display_type_def replace_underscores_def)
  then show ?thesis by (metis length_0_conv)
qed

lemma raw_type_not_Nil: "raw_type ext \<noteq> []"
  by (simp add: raw_type_def or_default_def or_else_def truthy_def split: option.splits)

text \<open>
  What the chart does: it groups the flat list \<^verbatim>\<open>langextract.clauses\<close>, as the backend
  sent it, by the importance of each extraction's type, and leaves out a bucket whose count
  is zero. It shows nothing for a payload of another shape. For a flat payload of which
  the clause list discards nothing, this is the distribution of the normalized clauses.
\<close>

lemma riskData_flat_list:
  assumes "langextract data = Some p" and "payload_clauses p = Some cs"
  shows "map (\<lambda>i. (item_name i, item_value i)) (riskData data)
         = risk_distribution (map (\<lambda>c. importance_of_type (raw_type c)) cs)"
  using assms
  by (simp add: riskData_def Let_def count_risk_foldl risk_distribution_def filter_map o_def
      chart_importance_spec)

lemma riskData_other_shapes:
  assumes "langextract data = Some p" and "payload_clauses p = None"
  shows "riskData data = []"
  using assms by (simp add: riskData_def)

lemma riskData_scenario:
  "riskData \<lparr> ner = None, finbert = None, langextract = Some scenario_payload \<rparr>
     = [\<lparr> item_name = ''High Risk'', item_value = 1, item_color = ''#ef4444'' \<rparr>,
        \<lparr> item_name = ''Medium Risk'', item_value = 1, item_color = ''#f59e0b'' \<rparr>]"
  by code_simp

lemma riskData_of_kept_clauses:
  assumes "langextract data = Some p" and "payload_results p = None"
    and "payload_clauses p = Some cs"
    and "list_all (\<lambda>c. valid_clause (normalize_extraction c)) cs"
  shows "map (\<lambda>i. (item_name i, item_value i)) (riskData data)
         = risk_distribution (map clause_importance (pc_clauses (processedData (Some p))))"
proof -
  from assms(4) have "filter valid_clause (map normalize_extraction cs) = map normalize_extraction cs"
    by (simp add: list_all_iff)
  with assms(2,3) have "pc_clauses (processedData (Some p)) = map normalize_extraction cs"
    by (simp add: processedData_clauses raw_clauses_def)
  moreover have "clause_importance (normalize_extraction c) = importance_of_type (raw_type c)" for c
    by (simp add: normalize_importance list_chart_importance chart_importance_spec)
  ultimately show ?thesis
    using riskData_flat_list [OF assms(1,3)] by (simp add: o_def)
qed

text \<open>
  Claim C8 has the risk distribution group the normalized clause list by importance into
  the buckets High, Medium and Low, leaving out an empty bucket, and give one High and one
  Medium for the end-to-end scenario. The chart does not read the normalized list. For
  the scenario in the multi-model shape the normalized clauses are one High and one
  Medium, and the chart is empty; for a flat payload whose only extraction has the text
  \<^verbatim>\<open>null\<close> the normalized list is empty, and the chart shows one High.
\<close>

theorem C8_chart_reads_raw_flat_list:
  "risk_distribution
     (map clause_importance (pc_clauses (processedData (Some scenario_results_payload))))
     = [(''High Risk'', 1), (''Medium Risk'', 1)]
   \<and> riskData \<lparr> ner = None, finbert = None, langextract = Some scenario_results_payload \<rparr> = []
   \<and> risk_distribution
       (map clause_importance (pc_clauses (processedData (Some null_text_payload)))) = []
   \<and> riskData \<lparr> ner = None, finbert = None, langextract = Some null_text_payload \<rparr>
     = [\<lparr> item_name = ''High Risk'', item_value = 1, item_color = ''#ef4444'' \<rparr>]"
  by code_simp

section \<open>The entity distribution\<close>

text \<open>
  What the chart does with the key it uses: every count is the number of entities with
  that key, the items are in descending order of count, and there are at most ten.
\<close>

lemma increment_keys: "map fst (increment k acc) = (if k \<in> fst ` set acc then map fst acc else map fst acc @ [k])"
  by (induction acc) (auto split: if_splits)

lemma increment_distinct: "distinct (map fst acc) \<Longrightarrow> distinct (map fst (increment k acc))"
  by (simp add: increment_keys)

lemma increment_lookup:
  "map_of (increment k acc) k' =
     (if k' = k then Some (case map_of acc k of None \<Rightarrow> 1 | Some n \<Rightarrow> n + 1) else map_of acc k')"
  by (induction acc) (auto split: if_splits)

lemma counts_lookup:
  "map_of (foldl (\<lambda>acc e. increment (label_key e) acc) acc0 es) k
   = (let n = length (filter (\<lambda>e. label_key e = k) es)
      in case map_of acc0 k of None \<Rightarrow> (if n = 0 then None else Some n) | Some m \<Rightarrow> Some (m + n))"
proof (induction es arbitrary: acc0)
  case Nil
  show ?case by (simp split: option.splits)
next
  case (Cons e es)
  show ?case
    by (simp add: Cons.IH [of "increment (label_key e) acc0"] increment_lookup Let_def
        split: option.splits)
qed

lemma entityData_counts:
  assumes "ner data = Some n" and "entities n = Some es" and "(k, v) \<in> set (entityData data)"
  shows "v = length (filter (\<lambda>e. label_key e = k) es) \<and> 0 < v"
proof -
  let ?counts = "foldl (\<lambda>acc e. increment (label_key e) acc) [] es"
  have dist: "distinct (map fst (foldl (\<lambda>acc e. increment (label_key e) acc) acc0 es))"
    if "distinct (map fst acc0)" for acc0
    using that by (induction es arbitrary: acc0) (simp_all add: increment_distinct)
  from assms have "(k, v) \<in> set (take 10 (sort_key (\<lambda>item. - int (snd item)) ?counts))"
    by (simp add: entityData_def Let_def)
  then have "(k, v) \<in> set ?counts" by (auto dest: in_set_takeD)
  with dist [of "[]"] have "map_of ?counts k = Some v" by simp
  then show ?thesis by (auto simp add: counts_lookup Let_def split: if_splits)
qed

lemma entityData_descending: "sorted_wrt (\<lambda>a b. snd b \<le> snd a) (entityData data)"
proof -
  have desc: "sorted_wrt (\<lambda>a b. snd b \<le> snd a) (take 10 (sort_key (\<lambda>item. - int (snd item)) xs))"
    for xs :: "(string \<times> nat) list"
  proof -
    have "sorted (map (\<lambda>item. - int (snd item)) (sort_key (\<lambda>item. - int (snd item)) xs))"
      by (rule sorted_sort_key)
    then have "sorted_wrt (\<lambda>a b. snd b \<le> snd a) (sort_key (\<lambda>item. - int (snd item)) xs)"
      by (simp add: sorted_wrt_map)
    then show ?thesis by (rule sorted_wrt_take)
  qed
  show ?thesis
    by (simp add: entityData_def Let_def desc split: option.splits)
qed

lemma entityData_at_most_ten: "length (entityData data) \<le> 10"
  by (simp add: entityData_def Let_def split: option.splits)

text \<open>
  Claim C9 has the entity distribution group the entities by label, or by type when the
  label is absent, count them, sort the groups by descending count and keep the first
  ten. The chart counts by \<^verbatim>\<open>label\<close> alone: on a payload whose entities carry a
  \<^verbatim>\<open>type\<close> and no \<^verbatim>\<open>label\<close>, all of them are counted under the one key
  \<^verbatim>\<open>undefined\<close>, where the entity tab groups the same payload by type.
\<close>

theorem C9_chart_ignores_entity_type:
  "entityData typed_entities = [(''undefined'', 2)]
   \<and> map (\<lambda>g. (group_type g, group_count g)) (entityGroups (ner typed_entities))
     = [(''ORG'', 1), (''DATE'', 1)]"
  by code_simp

section \<open>The highlighted text\<close>

text \<open>
  The callback of the loop either leaves the state as it is, or emits a highlight at an
  occurrence of the clause text at or after the cursor, preceded by the gap.
\<close>

lemma render_clause_cases:
  "render_clause text c idx st = st
   \<or> (\<exists>d. lastIndex st \<le> d \<and> d \<le> length text \<and> prefix (clause_text c) (drop d text)
         \<and> render_clause text c idx st
            = \<lparr> lastIndex = d + length (clause_text c),
                elements =
                  (if lastIndex st < d then elements st @ [Plain (substring text (lastIndex st) d)]
                   else elements st)
                  @ [Highlight idx d (d + length (clause_text c))
                       (substring text d (d + length (clause_text c)))] \<rparr>)"
proof (cases "indexOf text (clause_text c) 0")
  case None
  then show ?thesis by (simp add: render_clause_def)
next
  case (Some f)
  note first = indexOf_Some [OF Some]
  show ?thesis
  proof (cases "indexOf text (clause_text c) (lastIndex st)")
    case None
    show ?thesis
    proof (cases "f < lastIndex st")
      case True
      with Some None show ?thesis by (simp add: render_clause_def)
    next
      case False
      with Some None first show ?thesis
        by (intro disjI2 exI [of _ f]) (simp add: render_clause_def Let_def)
    qed
  next
    case (Some k)
    note at = indexOf_Some [OF Some]
    show ?thesis
    proof (cases "k < lastIndex st")
      case True
      with Some \<open>indexOf text (clause_text c) 0 = Some f\<close> show ?thesis
        by (simp add: render_clause_def)
    next
      case False
      with Some \<open>indexOf text (clause_text c) 0 = Some f\<close> at show ?thesis
        by (intro disjI2 exI [of _ k]) (simp add: render_clause_def Let_def)
    qed
  qed
qed

lemma render_clause_skip:
  assumes "indexOf text (clause_text c) (lastIndex st) = None"
  shows "render_clause text c idx st = st"
proof (cases "indexOf text (clause_text c) 0")
  case None
  then show ?thesis by (simp add: render_clause_def)
next
  case (Some f)
  from indexOf_Some [OF Some] have fl: "f \<le> length text"
    and pre: "prefix (clause_text c) (drop f text)" by simp_all
  have "f < lastIndex st"
  proof (rule ccontr)
    assume "\<not> f < lastIndex st"
    then have "lastIndex st \<le> f" by simp
    from indexOf_None [OF assms this fl] pre show False by simp
  qed
  with Some assms show ?thesis by (simp add: render_clause_def)
qed

lemma render_clause_lastIndex_mono: "lastIndex st \<le> lastIndex (render_clause text c idx st)"
  using render_clause_cases [of "text" c idx st] by auto

lemma spans_append: "spans (xs @ ys) = spans xs @ spans ys"
proof (induction xs)
  case Nil
  show ?case by simp
next
  case (Cons e es)
  then show ?case by (cases e) simp_all
qed

lemma text_inv_render_clause:
  assumes "text_inv text st"
  shows "text_inv text (render_clause text c idx st)"
proof -
  from render_clause_cases [of "text" c idx st] show ?thesis
  proof (elim disjE exE conjE)
    assume "render_clause text c idx st = st"
    with assms show ?thesis by simp
  next
    fix d
    assume le: "lastIndex st \<le> d" and dl: "d \<le> length text"
      and pre: "prefix (clause_text c) (drop d text)"
      and eq: "render_clause text c idx st
            = \<lparr> lastIndex = d + length (clause_text c),
                elements =
                  (if lastIndex st < d then elements st @ [Plain (substring text (lastIndex st) d)]
                   else elements st)
                  @ [Highlight idx d (d + length (clause_text c))
                       (substring text d (d + length (clause_text c)))] \<rparr>"
    let ?n = "length (clause_text c)"
    from prefix_drop_occurrence [OF pre dl]
    have fit: "d + ?n \<le> length text" and occ: "take ?n (drop d text) = clause_text c"
      by simp_all
    have gap: "substring text (lastIndex st) d = take (d - lastIndex st) (drop (lastIndex st) text)"
      using le dl by (simp add: substring_in_range)
    have hl: "substring text d (d + ?n) = take ?n (drop d text)"
      using fit by (simp add: substring_in_range)
    from assms have sofar: "concat (map element_text (elements st)) = take (lastIndex st) text"
      by (simp add: text_inv_def)
    have "concat (map element_text (elements (render_clause text c idx st)))
          = take (lastIndex st) text @ take (d - lastIndex st) (drop (lastIndex st) text)
            @ take ?n (drop d text)"
    proof (cases "lastIndex st < d")
      case True
      then show ?thesis by (simp add: eq sofar gap hl)
    next
      case False
      with le have same: "lastIndex st = d" by simp
      have "concat (map element_text (elements (render_clause text c idx st)))
            = take d text @ take ?n (drop d text)"
        using False by (simp add: eq sofar hl same)
      then show ?thesis by (simp add: same)
    qed
    also have "\<dots> = take (d + ?n) text" using le fit by (rule concat_gap)
    finally show ?thesis using fit by (simp add: text_inv_def eq)
  qed
qed

lemma spans_inv_render_clause:
  assumes "spans_inv st"
  shows "spans_inv (render_clause text c idx st)"
proof -
  from render_clause_cases [of "text" c idx st] show ?thesis
  proof (elim disjE exE conjE)
    assume "render_clause text c idx st = st"
    with assms show ?thesis by simp
  next
    fix d
    assume le: "lastIndex st \<le> d"
      and eq: "render_clause text c idx st
            = \<lparr> lastIndex = d + length (clause_text c),
                elements =
                  (if lastIndex st < d then elements st @ [Plain (substring text (lastIndex st) d)]
                   else elements st)
                  @ [Highlight idx d (d + length (clause_text c))
                       (substring text d (d + length (clause_text c)))] \<rparr>"
    have sp: "spans (elements (render_clause text c idx st))
              = spans (elements st) @ [(d, d + length (clause_text c))]"
      by (simp add: eq spans_append)
    from assms have sorted: "sorted_wrt (\<lambda>a b. snd a \<le> fst b) (spans (elements st))"
      and ends: "\<forall>p \<in> set (spans (elements st)). fst p \<le> snd p \<and> snd p \<le> lastIndex st"
      by (simp_all add: spans_inv_def list_all_iff)
    from ends le have before: "\<forall>p \<in> set (spans (elements st)). snd p \<le> d" by fastforce
    from ends le have ends': "\<forall>p \<in> set (spans (elements st)).
        fst p \<le> snd p \<and> snd p \<le> d + length (clause_text c)" by fastforce
    have li: "lastIndex (render_clause text c idx st) = d + length (clause_text c)"
      by (simp add: eq)
    show ?thesis
      unfolding spans_inv_def sp li
      using sorted before ends' by (simp add: sorted_wrt_append list_all_iff)
  qed
qed

lemma text_inv_render_loop:
  "text_inv text st \<Longrightarrow> text_inv text (render_loop text cs idx st)"
  by (induction cs arbitrary: idx st) (simp_all add: text_inv_render_clause)

lemma spans_inv_render_loop:
  "spans_inv st \<Longrightarrow> spans_inv (render_loop text cs idx st)"
  by (induction cs arbitrary: idx st) (simp_all add: spans_inv_render_clause)

lemma render_sorted_text:
  assumes "text \<noteq> []"
  shows "\<exists>es. render_sorted text cs = Elements es \<and> concat (map element_text es) = text"
proof -
  let ?st = "render_loop text cs 0 \<lparr> lastIndex = 0, elements = [] \<rparr>"
  have "text_inv text \<lparr> lastIndex = 0, elements = [] \<rparr>" by (simp add: text_inv_def)
  then have "text_inv text ?st" by (rule text_inv_render_loop)
  then have le: "lastIndex ?st \<le> length text"
    and sofar: "concat (map element_text (elements ?st)) = take (lastIndex ?st) text"
    by (simp_all add: text_inv_def)
  show ?thesis
  proof (cases "lastIndex ?st < length text")
    case True
    then have "render_sorted text cs = Elements (elements ?st @ [Plain (substring_from text (lastIndex ?st))])"
      using assms by (simp add: render_sorted_def Let_def)
    moreover have "concat (map element_text (elements ?st @ [Plain (substring_from text (lastIndex ?st))])) = text"
      using le by (simp add: sofar substring_from_def)
    ultimately show ?thesis by blast
  next
    case False
    with le have "lastIndex ?st = length text" by simp
    then have "concat (map element_text (elements ?st)) = text" by (simp add: sofar)
    moreover have "render_sorted text cs = Elements (elements ?st)"
      using False assms by (simp add: render_sorted_def Let_def)
    ultimately show ?thesis by blast
  qed
qed

lemma render_sorted_spans:
  "sorted_wrt (\<lambda>a b. snd a \<le> fst b) (spans (rendered_elements (render_sorted text cs)))
   \<and> list_all (\<lambda>p. fst p \<le> snd p) (spans (rendered_elements (render_sorted text cs)))"
proof -
  let ?st = "render_loop text cs 0 \<lparr> lastIndex = 0, elements = [] \<rparr>"
  have "spans_inv \<lparr> lastIndex = 0, elements = [] \<rparr>" by (simp add: spans_inv_def)
  then have "spans_inv ?st" by (rule spans_inv_render_loop)
  then have "sorted_wrt (\<lambda>a b. snd a \<le> fst b) (spans (elements ?st))
      \<and> list_all (\<lambda>p. fst p \<le> snd p) (spans (elements ?st))"
    by (auto simp add: spans_inv_def list_all_iff)
  then show ?thesis
    by (simp add: render_sorted_def Let_def spans_append)
qed

lemma nonempty_spans_render_clause:
  assumes "list_all (\<lambda>p. fst p < snd p) (spans (elements st))" and "clause_text c \<noteq> []"
  shows "list_all (\<lambda>p. fst p < snd p) (spans (elements (render_clause text c idx st)))"
  using render_clause_cases [of "text" c idx st] assms
  by (auto simp add: spans_append)

lemma nonempty_spans_render_loop:
  assumes "list_all (\<lambda>c. clause_text c \<noteq> []) cs"
    and "list_all (\<lambda>p. fst p < snd p) (spans (elements st))"
  shows "list_all (\<lambda>p. fst p < snd p) (spans (elements (render_loop text cs idx st)))"
  using assms
  by (induction cs arbitrary: idx st) (simp_all add: nonempty_spans_render_clause)

lemma sortedClauses_nonempty:
  "list_all (\<lambda>c. clause_text c \<noteq> []) (sortedClauses text cs search ftype)"
  by (auto simp add: sortedClauses_def Let_def list_all_iff)

lemma render_sorted_nonempty_spans:
  assumes "list_all (\<lambda>c. clause_text c \<noteq> []) cs"
  shows "list_all (\<lambda>p. fst p < snd p) (spans (rendered_elements (render_sorted text cs)))"
proof -
  let ?st = "render_loop text cs 0 \<lparr> lastIndex = 0, elements = [] \<rparr>"
  have "list_all (\<lambda>p. fst p < snd p) (spans (elements ?st))"
    using assms by (rule nonempty_spans_render_loop) simp
  then show ?thesis by (simp add: render_sorted_def Let_def spans_append)
qed

text \<open>
  Claim C3. For every document text and every clause list, the spans of the highlights are
  in document order and do not overlap: each span ends at or before the start of the next
  one, and starts strictly before it. A clause whose text has no occurrence at or after
  the cursor is skipped: the state of the loop, cursor included, is unchanged.
\<close>

theorem C3_spans_in_order:
  "(\<forall>i. Suc i < length (spans (rendered_elements (renderHighlightedText doc clauses st))) \<longrightarrow>
        snd (spans (rendered_elements (renderHighlightedText doc clauses st)) ! i)
          \<le> fst (spans (rendered_elements (renderHighlightedText doc clauses st)) ! Suc i)
        \<and> fst (spans (rendered_elements (renderHighlightedText doc clauses st)) ! i)
          < fst (spans (rendered_elements (renderHighlightedText doc clauses st)) ! Suc i))
   \<and> (indexOf body (clause_text c) (lastIndex rs) = None \<longrightarrow> render_clause body c idx rs = rs)"
proof -
  let ?sp = "spans (rendered_elements (renderHighlightedText doc clauses st))"
  have sorted: "sorted_wrt (\<lambda>a b. snd a \<le> fst b) ?sp"
    using render_sorted_spans by (simp add: renderHighlightedText_def)
  have wide: "list_all (\<lambda>p. fst p < snd p) ?sp"
    using render_sorted_nonempty_spans [OF sortedClauses_nonempty]
    by (simp add: renderHighlightedText_def)
  have "snd (?sp ! i) \<le> fst (?sp ! Suc i) \<and> fst (?sp ! i) < fst (?sp ! Suc i)"
    if "Suc i < length ?sp" for i
  proof -
    from sorted that have "snd (?sp ! i) \<le> fst (?sp ! Suc i)"
      by (simp add: sorted_wrt_iff_nth_less)
    moreover from wide that have "fst (?sp ! i) < snd (?sp ! i)"
      by (simp add: list_all_length)
    ultimately show ?thesis by simp
  qed
  then show ?thesis using render_clause_skip by blast
qed

theorem C3_spans_in_order_witness:
  "spans (rendered_elements
      (renderHighlightedText scenario_text (pc_clauses (processedData (Some scenario_payload)))
         initial_viewer))
     = [(3, 38), (43, 90)]
   \<and> snd (spans (rendered_elements
      (renderHighlightedText scenario_text (pc_clauses (processedData (Some scenario_payload)))
         initial_viewer)) ! 0)
     \<le> fst (spans (rendered_elements
      (renderHighlightedText scenario_text (pc_clauses (processedData (Some scenario_payload)))
         initial_viewer)) ! Suc 0)
   \<and> indexOf ''abcabc'' (clause_text bca_clause) 6 = None
   \<and> render_clause ''abcabc'' bca_clause 2 \<lparr> lastIndex = 6, elements = [] \<rparr>
     = \<lparr> lastIndex = 6, elements = [] \<rparr>"
proof -
  let ?sp = "spans (rendered_elements
      (renderHighlightedText scenario_text (pc_clauses (processedData (Some scenario_payload)))
         initial_viewer))"
  have sp: "?sp = [(3, 38), (43, 90)]" by code_simp
  then have two: "Suc 0 < length ?sp" by simp
  have none: "indexOf ''abcabc'' (clause_text bca_clause) 6 = None" by code_simp
  note inst = C3_spans_in_order [where doc = scenario_text
      and clauses = "pc_clauses (processedData (Some scenario_payload))"
      and st = initial_viewer and body = "''abcabc''" and c = bca_clause
      and rs = "\<lparr> lastIndex = 6, elements = [] \<rparr>" and idx = 2]
  from inst two have "snd (?sp ! 0) \<le> fst (?sp ! Suc 0)" by blast
  moreover from inst none
  have "render_clause ''abcabc'' bca_clause 2 \<lparr> lastIndex = 6, elements = [] \<rparr>
     = \<lparr> lastIndex = 6, elements = [] \<rparr>" by simp
  ultimately show ?thesis using sp none by blast
qed

text \<open>
  Claim C10. For every non-empty document text and every clause list, the texts of the
  rendered elements (gaps, highlights and the remainder), concatenated in order, are the
  document text. A clause that is skipped adds no element.
\<close>

theorem C10_text_preserved:
  assumes "text \<noteq> []"
  shows "renderHighlightedText text clauses st \<noteq> NoTextContent
       \<and> concat (map element_text (rendered_elements (renderHighlightedText text clauses st)))
           = text
       \<and> (indexOf doc (clause_text c) (lastIndex rs) = None \<longrightarrow>
            elements (render_clause doc c idx rs) = elements rs)"
proof -
  from render_sorted_text [OF assms]
  obtain es where "renderHighlightedText text clauses st = Elements es"
    and "concat (map element_text es) = text"
    unfolding renderHighlightedText_def by blast
  then show ?thesis by (simp add: render_clause_skip)
qed

theorem C10_text_preserved_witness:
  "scenario_text \<noteq> []
   \<and> map element_text (rendered_elements
        (renderHighlightedText scenario_text (pc_clauses (processedData (Some scenario_payload)))
           initial_viewer))
     = [''A. '', ''The Liability Clause limits damages'', ''. B. '',
        ''The Confidentiality Clause restricts disclosure'', ''.'']
   \<and> concat (map element_text (rendered_elements
        (renderHighlightedText scenario_text (pc_clauses (processedData (Some scenario_payload)))
           initial_viewer)))
     = scenario_text"
proof -
  have ne: "scenario_text \<noteq> []" by (simp add: scenario_text_def)
  have segs: "map element_text (rendered_elements
        (renderHighlightedText scenario_text (pc_clauses (processedData (Some scenario_payload)))
           initial_viewer))
     = [''A. '', ''The Liability Clause limits damages'', ''. B. '',
        ''The Confidentiality Clause restricts disclosure'', ''.'']"
    by code_simp
  from C10_text_preserved [OF ne] ne segs show ?thesis by blast
qed

end
